theory Spec2Isabelle
  imports Main
begin

section \<open>A type-erased callable container with small-object storage (function.h)\<close>

text \<open>
  The class template \<open>function<R (Args...)>\<close> keeps an adapter (\<open>wrapper\<close>) for a callable
  either in a fixed buffer inside the object or behind an owning pointer; the two share a
  union and the flag \<open>small_object\<close> says which member is read.

  The embedding is a store: function objects live at locations (indices into \<open>objs\<close>), heap
  adapters at addresses (indices into \<open>heap\<close>). Every member function takes the locations of
  \<open>this\<close> and of its reference parameters, so that \<open>c = c\<close> and \<open>a.swap(a)\<close> are the same
  definitions applied to equal locations. Operations return \<open>error + result\<close>: the exception
  \<open>bad_function_call\<close>, or one of the ways the C++ program leaves defined behaviour.

  Type parameters: \<open>'a\<close> is the argument pack \<open>Args...\<close>, \<open>'r\<close> the result type \<open>R\<close>, and
  \<open>'s\<close> the data a stored callable carries (its captures).
\<close>

subsection \<open>Errors\<close>

datatype error =
    bad_function_call   \<comment> \<open>thrown by \<open>operator()\<close>\<close>
  | null_dereference    \<comment> \<open>a member call through a null \<open>big_pointer\<close>\<close>
  | dead_object         \<comment> \<open>use of union storage that holds no live object\<close>
  | use_after_free      \<comment> \<open>a member call through a pointer to a released adapter\<close>
  | double_free         \<comment> \<open>\<open>delete\<close> of an adapter that is already released\<close>
  | inactive_member     \<comment> \<open>the union read through the member that is not the live one\<close>
  | buffer_overflow     \<comment> \<open>placement \<open>new\<close> of an object larger than \<open>buffer\<close>\<close>
  | bad_location        \<comment> \<open>no function object at this location\<close>

definition bind_res :: "error + 'x \<Rightarrow> ('x \<Rightarrow> error + 'y) \<Rightarrow> error + 'y" where
  "bind_res m k = (case m of Inl e \<Rightarrow> Inl e | Inr x \<Rightarrow> k x)"

subsection \<open>Callables and adapters\<close>

text \<open>
  A callable of type \<open>T\<close>: its data members, its \<open>operator()\<close> (which may change them), and the
  two type traits the constructor template inspects. \<open>T\<close> is a value type: copy and move
  construction give an object with the same data; exceptions of \<open>T\<close> itself are not modelled.
  \<open>size_of\<close> is \<open>sizeof(T)\<close>, the number the constructor compares.
\<close>

record ('s, 'a, 'r) callable =
  captured :: 's
  invoke :: "'s \<Rightarrow> 'a \<Rightarrow> 'r \<times> 's"
  size_of :: nat
  nothrow_move_constructible :: bool

text \<open>
  The two classes derived from \<open>wrapper\<close>. The constructor from \<open>F Class::*\<close> instantiates
  \<open>wrapper_member<F, Class>\<close>, with an empty pack \<open>FunArgs\<close>: its \<open>call\<close> takes the receiver
  alone, so \<open>Args...\<close> is the receiver class. The member function gets the receiver that
  \<open>operator()\<close> took by value; what it does to that copy is dropped.
\<close>

datatype ('s, 'a, 'r) wrapper =
    wrapper_function "('s, 'a, 'r) callable"
  | wrapper_member "'a \<Rightarrow> 'r \<times> 'a"

fun call :: "('s, 'a, 'r) wrapper \<Rightarrow> 'a \<Rightarrow> 'r \<times> ('s, 'a, 'r) wrapper" where
  "call (wrapper_function c) args =
     (case invoke c (captured c) args of
        (r, s') \<Rightarrow> (r, wrapper_function (c\<lparr>captured := s'\<rparr>)))"
| "call (wrapper_member m) object = (fst (m object), wrapper_member m)"

text \<open>The adapter that \<open>move_by_pointer\<close> and \<open>clone_small\<close> construct at \<open>to\<close>, and the one
  \<open>clone\<close> constructs on the heap.\<close>

fun move_by_pointer :: "('s, 'a, 'r) wrapper \<Rightarrow> ('s, 'a, 'r) wrapper" where
  "move_by_pointer (wrapper_function c) = wrapper_function c"
| "move_by_pointer (wrapper_member m) = wrapper_member m"

fun clone_small :: "('s, 'a, 'r) wrapper \<Rightarrow> ('s, 'a, 'r) wrapper" where
  "clone_small (wrapper_function c) = wrapper_function c"
| "clone_small (wrapper_member m) = wrapper_member m"

fun clone :: "('s, 'a, 'r) wrapper \<Rightarrow> ('s, 'a, 'r) wrapper" where
  "clone (wrapper_function c) = wrapper_function c"
| "clone (wrapper_member m) = wrapper_member m"

subsection \<open>Function objects and the store\<close>

text \<open>
  What the union holds: an adapter constructed in \<open>buffer\<close>, a \<open>unique_ptr\<close> (\<open>None\<close> is
  \<open>nullptr\<close>), or no live object (storage before a constructor ran, or a buffer whose adapter
  was destroyed in place).
\<close>

datatype ('s, 'a, 'r) storage =
    Buffer "('s, 'a, 'r) wrapper"
  | BigPointer "nat option"
  | Dead

record ('s, 'a, 'r) function_obj =
  small_object :: bool
  storage :: "('s, 'a, 'r) storage"

record ('s, 'a, 'r) memory =
  objs :: "('s, 'a, 'r) function_obj list"
  heap :: "('s, 'a, 'r) wrapper option list"

definition MAX_SIZE :: nat where
  "MAX_SIZE = 128"

text \<open>
  The size of the adapters, which the source leaves to the compiler. An object of a class
  with virtual functions starts with its vtable pointer, of eight bytes on the 64-bit
  targets; \<open>wrapper_function<T>\<close> holds the callable after it, \<open>wrapper_member\<close> a pointer to
  member function of two words. Padding, which can only add to these, is not counted.
\<close>

definition sizeof_vptr :: nat where
  "sizeof_vptr = 8"

definition sizeof_wrapper_function :: "('s, 'a, 'r) callable \<Rightarrow> nat" where
  "sizeof_wrapper_function f = sizeof_vptr + size_of f"

definition sizeof_wrapper_member :: nat where
  "sizeof_wrapper_member = sizeof_vptr + 16"

text \<open>Field access at a location.\<close>

definition get_small_object :: "('s, 'a, 'r) memory \<Rightarrow> nat \<Rightarrow> error + bool" where
  "get_small_object m l =
     (if l < length (objs m) then Inr (small_object (objs m ! l)) else Inl bad_location)"

definition set_small_object ::
  "('s, 'a, 'r) memory \<Rightarrow> nat \<Rightarrow> bool \<Rightarrow> error + ('s, 'a, 'r) memory" where
  "set_small_object m l b =
     (if l < length (objs m)
      then Inr (m\<lparr>objs := (objs m)[l := (objs m ! l)\<lparr>small_object := b\<rparr>]\<rparr>)
      else Inl bad_location)"

text \<open>\<open>reinterpret_cast<wrapper*>(buffer)\<close> used for a member call.\<close>

definition get_buffer :: "('s, 'a, 'r) memory \<Rightarrow> nat \<Rightarrow> error + ('s, 'a, 'r) wrapper" where
  "get_buffer m l =
     (if l < length (objs m)
      then (case storage (objs m ! l) of
              Buffer w \<Rightarrow> Inr w
            | BigPointer p \<Rightarrow> Inl inactive_member
            | Dead \<Rightarrow> Inl dead_object)
      else Inl bad_location)"

text \<open>The value of \<open>big_pointer\<close>.\<close>

definition get_big_pointer :: "('s, 'a, 'r) memory \<Rightarrow> nat \<Rightarrow> error + nat option" where
  "get_big_pointer m l =
     (if l < length (objs m)
      then (case storage (objs m ! l) of
              Buffer w \<Rightarrow> Inl inactive_member
            | BigPointer p \<Rightarrow> Inr p
            | Dead \<Rightarrow> Inl dead_object)
      else Inl bad_location)"

text \<open>Placement \<open>new (buffer) ...\<close>, and the write a move leaves in its source pointer.\<close>

definition set_storage ::
  "('s, 'a, 'r) memory \<Rightarrow> nat \<Rightarrow> ('s, 'a, 'r) storage \<Rightarrow> error + ('s, 'a, 'r) memory" where
  "set_storage m l s =
     (if l < length (objs m)
      then Inr (m\<lparr>objs := (objs m)[l := (objs m ! l)\<lparr>storage := s\<rparr>]\<rparr>)
      else Inl bad_location)"

text \<open>The heap: \<open>make_unique\<close>, \<open>operator->\<close> of a \<open>unique_ptr\<close>, and \<open>delete\<close>.\<close>

definition make_unique ::
  "('s, 'a, 'r) memory \<Rightarrow> ('s, 'a, 'r) wrapper \<Rightarrow> nat \<times> ('s, 'a, 'r) memory" where
  "make_unique m w = (length (heap m), m\<lparr>heap := heap m @ [Some w]\<rparr>)"

definition deref :: "('s, 'a, 'r) memory \<Rightarrow> nat option \<Rightarrow> error + ('s, 'a, 'r) wrapper" where
  "deref m p =
     (case p of
        None \<Rightarrow> Inl null_dereference
      | Some a \<Rightarrow>
          (if a < length (heap m)
           then (case heap m ! a of Some w \<Rightarrow> Inr w | None \<Rightarrow> Inl use_after_free)
           else Inl use_after_free))"

definition delete :: "('s, 'a, 'r) memory \<Rightarrow> nat \<Rightarrow> error + ('s, 'a, 'r) memory" where
  "delete m a =
     (if a < length (heap m)
      then (case heap m ! a of
              Some w \<Rightarrow> Inr (m\<lparr>heap := (heap m)[a := None]\<rparr>)
            | None \<Rightarrow> Inl double_free)
      else Inl double_free)"

subsection \<open>Constructors\<close>

text \<open>\<open>function(std::nullptr_t)\<close> and \<open>function()\<close>.\<close>

definition function_nullptr ::
  "('s, 'a, 'r) memory \<Rightarrow> nat \<Rightarrow> error + ('s, 'a, 'r) memory" where
  "function_nullptr m this =
     bind_res (set_small_object m this False) (\<lambda>m1.
     set_storage m1 this (BigPointer None))"

definition function_default ::
  "('s, 'a, 'r) memory \<Rightarrow> nat \<Rightarrow> error + ('s, 'a, 'r) memory" where
  "function_default m this = function_nullptr m this"

text \<open>
  \<open>template <typename F> function(F f)\<close>. The test is on \<open>sizeof(f)\<close>; the inline branch
  sets the flag and then constructs the adapter in \<open>char buffer[MAX_SIZE]\<close>, whatever the
  adapter's size. An adapter larger than the buffer is written past its end.
\<close>

definition function_F ::
  "('s, 'a, 'r) memory \<Rightarrow> nat \<Rightarrow> ('s, 'a, 'r) callable \<Rightarrow> error + ('s, 'a, 'r) memory" where
  "function_F m this f =
     (if nothrow_move_constructible f \<and> size_of f > MAX_SIZE
      then bind_res (set_small_object m this False) (\<lambda>m1.
           case make_unique m1 (wrapper_function f) of
             (a, m2) \<Rightarrow> set_storage m2 this (BigPointer (Some a)))
      else bind_res (set_small_object m this True) (\<lambda>m1.
           if sizeof_wrapper_function f > MAX_SIZE then Inl buffer_overflow
           else set_storage m1 this (Buffer (wrapper_function f))))"

text \<open>\<open>template <typename F, typename Class> function(F Class::* member)\<close>.\<close>

definition function_member ::
  "('s, 'a, 'r) memory \<Rightarrow> nat \<Rightarrow> ('a \<Rightarrow> 'r \<times> 'a) \<Rightarrow> error + ('s, 'a, 'r) memory" where
  "function_member m this member =
     bind_res (set_small_object m this True) (\<lambda>m1.
     if sizeof_wrapper_member > MAX_SIZE then Inl buffer_overflow
     else set_storage m1 this (Buffer (wrapper_member member)))"

text \<open>\<open>function(const function& other)\<close>.\<close>

definition function_copy ::
  "('s, 'a, 'r) memory \<Rightarrow> nat \<Rightarrow> nat \<Rightarrow> error + ('s, 'a, 'r) memory" where
  "function_copy m this other =
     bind_res (get_small_object m other) (\<lambda>so.
     bind_res
       (if so
        then bind_res (get_buffer m other) (\<lambda>w.
             set_storage m this (Buffer (clone_small w)))
        else bind_res (get_big_pointer m other) (\<lambda>p.
             bind_res (deref m p) (\<lambda>w.
             case make_unique m (clone w) of
               (a, m1) \<Rightarrow> set_storage m1 this (BigPointer (Some a)))))
       (\<lambda>m2.
     bind_res (get_small_object m2 other) (\<lambda>so2.
     set_small_object m2 this so2)))"

text \<open>
  \<open>function(function&& other)\<close>. In the inline branch the moved-from adapter in
  \<open>other.buffer\<close> is overwritten by the null pointer in the next statement. In the other
  branch the move constructor of \<open>unique_ptr\<close> releases its source before it initialises
  its target.
\<close>

definition function_move ::
  "('s, 'a, 'r) memory \<Rightarrow> nat \<Rightarrow> nat \<Rightarrow> error + ('s, 'a, 'r) memory" where
  "function_move m this other =
     bind_res (get_small_object m other) (\<lambda>so.
     bind_res
       (if so
        then bind_res (get_buffer m other) (\<lambda>w.
             bind_res (set_storage m this (Buffer (move_by_pointer w))) (\<lambda>m1.
             set_storage m1 other (BigPointer None)))
        else bind_res (get_big_pointer m other) (\<lambda>p.
             bind_res (set_storage m other (BigPointer None)) (\<lambda>m1.
             set_storage m1 this (BigPointer p))))
       (\<lambda>m2.
     bind_res (get_small_object m2 other) (\<lambda>so2.
     bind_res (set_small_object m2 this so2) (\<lambda>m3.
     set_small_object m3 other False))))"

subsection \<open>Destruction\<close>

text \<open>
  \<open>destruction()\<close>. The inline branch runs the adapter's destructor in place: the buffer
  holds no adapter afterwards, and a later member call on it is an error. The other branch
  runs \<open>~unique_ptr\<close>, whose effect is \<open>if (get()) delete get()\<close>: the pointer member keeps
  the value it had, null or now dangling. A later read of the pointer member sees that
  value (the language does not promise it, the representation does); a member call or a
  second \<open>delete\<close> through a dangling value is an error.
\<close>

definition destruction ::
  "('s, 'a, 'r) memory \<Rightarrow> nat \<Rightarrow> error + ('s, 'a, 'r) memory" where
  "destruction m this =
     bind_res (get_small_object m this) (\<lambda>so.
     if so
     then bind_res (get_buffer m this) (\<lambda>w. set_storage m this Dead)
     else bind_res (get_big_pointer m this) (\<lambda>p.
          case p of None \<Rightarrow> Inr m | Some a \<Rightarrow> delete m a))"

text \<open>\<open>~function()\<close>.\<close>

definition function_dtor ::
  "('s, 'a, 'r) memory \<Rightarrow> nat \<Rightarrow> error + ('s, 'a, 'r) memory" where
  "function_dtor m this = destruction m this"

text \<open>
  A local variable \<open>function tmp\<close>: storage for it is pushed at the end of \<open>objs\<close> before its
  constructor runs (no member of the union is live there; no constructor reads the flag
  before writing it), and popped after its destructor ran.
\<close>

definition enter :: "('s, 'a, 'r) memory \<Rightarrow> nat \<times> ('s, 'a, 'r) memory" where
  "enter m =
     (length (objs m), m\<lparr>objs := objs m @ [\<lparr>small_object = False, storage = Dead\<rparr>]\<rparr>)"

definition leave :: "('s, 'a, 'r) memory \<Rightarrow> ('s, 'a, 'r) memory" where
  "leave m = m\<lparr>objs := butlast (objs m)\<rparr>"

subsection \<open>Assignment and swap\<close>

text \<open>\<open>function& operator=(function&& other)\<close>.\<close>

definition operator_assign_move ::
  "('s, 'a, 'r) memory \<Rightarrow> nat \<Rightarrow> nat \<Rightarrow> error + ('s, 'a, 'r) memory" where
  "operator_assign_move m0 this other =
     bind_res (destruction m0 this) (\<lambda>m.
     bind_res (get_small_object m other) (\<lambda>so.
     bind_res
       (if so
        then bind_res (get_buffer m other) (\<lambda>w.
             bind_res (set_storage m this (Buffer (move_by_pointer w))) (\<lambda>m1.
             set_storage m1 other (BigPointer None)))
        else bind_res (get_big_pointer m other) (\<lambda>p.
             bind_res (set_storage m other (BigPointer None)) (\<lambda>m1.
             set_storage m1 this (BigPointer p))))
       (\<lambda>m2.
     bind_res (get_small_object m2 other) (\<lambda>so2.
     bind_res (set_small_object m2 this so2) (\<lambda>m3.
     set_small_object m3 other False)))))"

text \<open>\<open>void swap(function& other)\<close>.\<close>

definition swap ::
  "('s, 'a, 'r) memory \<Rightarrow> nat \<Rightarrow> nat \<Rightarrow> error + ('s, 'a, 'r) memory" where
  "swap m this other =
     (case enter m of (tmp, m1) \<Rightarrow>
     bind_res (function_move m1 tmp other) (\<lambda>m2.
     bind_res (operator_assign_move m2 other this) (\<lambda>m3.
     bind_res (operator_assign_move m3 this tmp) (\<lambda>m4.
     bind_res (function_dtor m4 tmp) (\<lambda>m5.
     Inr (leave m5))))))"

text \<open>\<open>function& operator=(const function& other)\<close>.\<close>

definition operator_assign_copy ::
  "('s, 'a, 'r) memory \<Rightarrow> nat \<Rightarrow> nat \<Rightarrow> error + ('s, 'a, 'r) memory" where
  "operator_assign_copy m this other =
     bind_res (destruction m this) (\<lambda>m1.
     case enter m1 of (tmp, m2) \<Rightarrow>
     bind_res (function_copy m2 tmp other) (\<lambda>m3.
     bind_res (swap m3 this tmp) (\<lambda>m4.
     bind_res (function_dtor m4 tmp) (\<lambda>m5.
     Inr (leave m5)))))"

subsection \<open>Boolean test and invocation\<close>

text \<open>\<open>explicit operator bool()\<close>: \<open>||\<close> does not read \<open>big_pointer\<close> when the flag is set.\<close>

definition operator_bool :: "('s, 'a, 'r) memory \<Rightarrow> nat \<Rightarrow> error + bool" where
  "operator_bool m this =
     bind_res (get_small_object m this) (\<lambda>so.
     if so then Inr True
     else bind_res (get_big_pointer m this) (\<lambda>p. Inr (p \<noteq> None)))"

text \<open>\<open>R operator()(Args... args)\<close>: the result, and the memory with the callable's data as
  the call left them.\<close>

definition operator_call ::
  "('s, 'a, 'r) memory \<Rightarrow> nat \<Rightarrow> 'a \<Rightarrow> error + ('r \<times> ('s, 'a, 'r) memory)" where
  "operator_call m this args =
     bind_res (operator_bool m this) (\<lambda>b.
     if \<not> b then Inl bad_function_call
     else bind_res (get_small_object m this) (\<lambda>so.
          if so
          then bind_res (get_buffer m this) (\<lambda>w.
               case call w args of (r, w') \<Rightarrow>
                 bind_res (set_storage m this (Buffer w')) (\<lambda>m1. Inr (r, m1)))
          else bind_res (get_big_pointer m this) (\<lambda>p.
               bind_res (deref m p) (\<lambda>w.
               case call w args of (r, w') \<Rightarrow>
                 (case p of
                    None \<Rightarrow> Inl null_dereference
                  | Some a \<Rightarrow> Inr (r, m\<lparr>heap := (heap m)[a := Some w']\<rparr>))))))"

subsection \<open>Observations\<close>

text \<open>The empty state, as the null and the move constructors leave it.\<close>

definition empty_obj :: "('s, 'a, 'r) function_obj" where
  "empty_obj = \<lparr>small_object = False, storage = BigPointer None\<rparr>"

text \<open>The flag names the member of the union that is live.\<close>

definition consistent :: "('s, 'a, 'r) function_obj \<Rightarrow> bool" where
  "consistent ob =
     (case storage ob of
        Buffer w \<Rightarrow> small_object ob
      | BigPointer p \<Rightarrow> \<not> small_object ob
      | Dead \<Rightarrow> False)"

text \<open>The live adapter a container dispatches to: the one in its buffer in inline mode,
  the one its pointer owns in heap mode; \<open>None\<close> for every other state.\<close>

definition adapter :: "('s, 'a, 'r) memory \<Rightarrow> nat \<Rightarrow> ('s, 'a, 'r) wrapper option" where
  "adapter m l =
     (if l < length (objs m)
      then (case storage (objs m ! l) of
              Buffer w \<Rightarrow> if small_object (objs m ! l) then Some w else None
            | BigPointer p \<Rightarrow>
                (case p of
                   None \<Rightarrow> None
                 | Some a \<Rightarrow>
                     if \<not> small_object (objs m ! l) \<and> a < length (heap m)
                     then heap m ! a else None)
            | Dead \<Rightarrow> None)
      else None)"

text \<open>A container in one of its three states: live inline, live heap, or empty.\<close>

definition valid :: "('s, 'a, 'r) memory \<Rightarrow> nat \<Rightarrow> bool" where
  "valid m l = (l < length (objs m) \<and> (adapter m l \<noteq> None \<or> objs m ! l = empty_obj))"

text \<open>The heap address a container's pointer holds.\<close>

definition owned :: "('s, 'a, 'r) memory \<Rightarrow> nat \<Rightarrow> nat option" where
  "owned m l =
     (if l < length (objs m) \<and> \<not> small_object (objs m ! l)
      then (case storage (objs m ! l) of BigPointer p \<Rightarrow> p | Buffer w \<Rightarrow> None | Dead \<Rightarrow> None)
      else None)"

text \<open>What a caller sees of an invocation: the value returned, or the error.\<close>

definition call_result :: "('s, 'a, 'r) memory \<Rightarrow> nat \<Rightarrow> 'a \<Rightarrow> error + 'r" where
  "call_result m l args =
     (case operator_call m l args of Inl e \<Rightarrow> Inl e | Inr (r, m') \<Rightarrow> Inr r)"

subsection \<open>Example programs\<close>

text \<open>
  A closure of four bytes that captures a counter, returns counter plus argument and
  increments the counter; one of 200 bytes and one of exactly 128 bytes with the same
  behaviour; the same closures with a move constructor that may throw; a member function
  \<open>bar\<close> of a class with one integer field.
\<close>

definition counter :: "nat \<Rightarrow> (int, int, int) callable" where
  "counter n =
     \<lparr>captured = 5, invoke = (\<lambda>x arg. (x + arg, x + 1)), size_of = n,
      nothrow_move_constructible = True\<rparr>"


definition bar :: "int \<Rightarrow> int \<times> int" where
  "bar field = (field * 2, field + 1)"

text \<open>Storage for two objects, nothing constructed yet; then: an inline container and an empty
  one; a heap container and an empty one; an inline container and a heap container.\<close>

definition raw2 :: "(int, int, int) memory" where
  "raw2 =
     \<lparr>objs = [\<lparr>small_object = False, storage = Dead\<rparr>, \<lparr>small_object = False, storage = Dead\<rparr>],
      heap = []\<rparr>"

definition inline_and_empty :: "(int, int, int) memory" where
  "inline_and_empty =
     \<lparr>objs = [\<lparr>small_object = True, storage = Buffer (wrapper_function (counter 4))\<rparr>,
              \<lparr>small_object = False, storage = BigPointer None\<rparr>],
      heap = []\<rparr>"

definition heap_and_empty :: "(int, int, int) memory" where
  "heap_and_empty =
     \<lparr>objs = [\<lparr>small_object = False, storage = BigPointer (Some 0)\<rparr>,
              \<lparr>small_object = False, storage = BigPointer None\<rparr>],
      heap = [Some (wrapper_function (counter 200))]\<rparr>"

definition inline_and_heap :: "(int, int, int) memory" where
  "inline_and_heap =
     \<lparr>objs = [\<lparr>small_object = True, storage = Buffer (wrapper_function (counter 4))\<rparr>,
              \<lparr>small_object = False, storage = BigPointer (Some 0)\<rparr>],
      heap = [Some (wrapper_function (counter 200))]\<rparr>"

text \<open>An inline container, an empty one, and storage for a third object.\<close>

definition inline_empty_raw :: "(int, int, int) memory" where
  "inline_empty_raw =
     \<lparr>objs = [\<lparr>small_object = True, storage = Buffer (wrapper_function (counter 4))\<rparr>,
              \<lparr>small_object = False, storage = BigPointer None\<rparr>,
              \<lparr>small_object = False, storage = Dead\<rparr>],
      heap = []\<rparr>"

section \<open>Properties\<close>

subsection \<open>What each operation does in the states it is meant for\<close>

lemma bind_res_simps [simp]:
  "bind_res (Inr x) k = k x" "bind_res (Inl e) k = Inl e"
  by (simp_all add: bind_res_def)

lemma move_by_pointer_id [simp]: "move_by_pointer w = w"
  by (cases w) simp_all
lemma clone_small_id [simp]: "clone_small w = w"
  by (cases w) simp_all
lemma clone_id [simp]: "clone w = w"
  by (cases w) simp_all

lemmas access_defs = get_small_object_def set_small_object_def get_buffer_def
  get_big_pointer_def set_storage_def

lemma obj_upd_both [simp]:
  "(ob :: ('s,'a,'r) function_obj)\<lparr>storage := s, small_object := b\<rparr> = \<lparr>small_object = b, storage = s\<rparr>"
  "(ob :: ('s,'a,'r) function_obj)\<lparr>small_object := b, storage := s\<rparr> = \<lparr>small_object = b, storage = s\<rparr>"
  by simp_all

lemma function_move_result:
  assumes "t < length (objs m)" "c < length (objs m)" "t \<noteq> c" "consistent (objs m ! c)"
  shows "function_move m t c = Inr (m\<lparr>objs := (objs m)[t := objs m ! c, c := empty_obj]\<rparr>)"
proof (cases "storage (objs m ! c)")
  case (Buffer w)
  with assms have so: "small_object (objs m ! c)" by (simp add: consistent_def)
  have "(objs m ! c) = \<lparr>small_object = True, storage = Buffer w\<rparr>" using so Buffer by simp
  with assms show ?thesis
    by (simp add: function_move_def access_defs empty_obj_def list_update_swap)
next
  case (BigPointer p)
  with assms have so: "\<not> small_object (objs m ! c)" by (simp add: consistent_def)
  have "(objs m ! c) = \<lparr>small_object = False, storage = BigPointer p\<rparr>" using so BigPointer by simp
  with assms show ?thesis
    by (simp add: function_move_def access_defs empty_obj_def list_update_swap)
next
  case Dead
  with assms show ?thesis by (simp add: consistent_def)
qed




lemma adapter_cases:
  assumes "adapter m l = Some w"
  shows "l < length (objs m) \<and>
         (objs m ! l = \<lparr>small_object = True, storage = Buffer w\<rparr> \<or>
          (\<exists>a. objs m ! l = \<lparr>small_object = False, storage = BigPointer (Some a)\<rparr> \<and>
               a < length (heap m) \<and> heap m ! a = Some w))"
proof -
  from assms have len: "l < length (objs m)"
    by (simp add: adapter_def split: if_splits)
  show ?thesis
  proof (cases "storage (objs m ! l)")
    case (Buffer v)
    with assms len have "small_object (objs m ! l)" "v = w"
      by (simp_all add: adapter_def split: if_splits)
    with Buffer have "objs m ! l = \<lparr>small_object = True, storage = Buffer w\<rparr>" by simp
    with len show ?thesis by simp
  next
    case (BigPointer p)
    with assms len obtain a where p: "p = Some a"
      by (cases p) (simp_all add: adapter_def)
    with assms len BigPointer have *: "\<not> small_object (objs m ! l)" "a < length (heap m)" "heap m ! a = Some w"
      by (simp_all add: adapter_def split: if_splits)
    with BigPointer p have "objs m ! l = \<lparr>small_object = False, storage = BigPointer (Some a)\<rparr>" by simp
    with len * show ?thesis by simp
  next
    case Dead
    with assms len show ?thesis by (simp add: adapter_def)
  qed
qed

lemma valid_consistent: "valid m l \<Longrightarrow> consistent (objs m ! l)"
  by (auto simp: valid_def consistent_def empty_obj_def dest!: adapter_cases)

lemma destruction_empty:
  "l < length (objs m) \<Longrightarrow> objs m ! l = empty_obj \<Longrightarrow> destruction m l = Inr m"
  by (simp add: destruction_def access_defs empty_obj_def)

lemma destruction_inline:
  "l < length (objs m) \<Longrightarrow> objs m ! l = \<lparr>small_object = True, storage = Buffer w\<rparr> \<Longrightarrow>
   destruction m l = Inr (m\<lparr>objs := (objs m)[l := \<lparr>small_object = True, storage = Dead\<rparr>]\<rparr>)"
  by (simp add: destruction_def access_defs)

lemma destruction_heap:
  "l < length (objs m) \<Longrightarrow> objs m ! l = \<lparr>small_object = False, storage = BigPointer (Some a)\<rparr> \<Longrightarrow>
   a < length (heap m) \<Longrightarrow> heap m ! a = Some w \<Longrightarrow>
   destruction m l = Inr (m\<lparr>heap := (heap m)[a := None]\<rparr>)"
  by (simp add: destruction_def access_defs delete_def)

lemma assign_move_unfold:
  "operator_assign_move m this other =
     bind_res (destruction m this) (\<lambda>m1. function_move m1 this other)"
  by (simp add: operator_assign_move_def function_move_def)

lemma function_move_self_empty:
  "c < length (objs m) \<Longrightarrow> objs m ! c = empty_obj \<Longrightarrow> function_move m c c = Inr m"
  by (simp add: function_move_def access_defs empty_obj_def list_update_same_conv)

lemma operator_call_inline:
  "l < length (objs m) \<Longrightarrow> objs m ! l = \<lparr>small_object = True, storage = Buffer w\<rparr> \<Longrightarrow>
   operator_call m l args =
     Inr (fst (call w args),
          m\<lparr>objs := (objs m)[l := \<lparr>small_object = True, storage = Buffer (snd (call w args))\<rparr>]\<rparr>)"
  by (simp add: operator_call_def operator_bool_def access_defs split: prod.splits)

lemma operator_call_heap:
  "l < length (objs m) \<Longrightarrow> objs m ! l = \<lparr>small_object = False, storage = BigPointer (Some a)\<rparr> \<Longrightarrow>
   a < length (heap m) \<Longrightarrow> heap m ! a = Some w \<Longrightarrow>
   operator_call m l args =
     Inr (fst (call w args), m\<lparr>heap := (heap m)[a := Some (snd (call w args))]\<rparr>)"
  by (simp add: operator_call_def operator_bool_def access_defs deref_def split: prod.splits)

lemma operator_call_empty:
  "l < length (objs m) \<Longrightarrow> objs m ! l = empty_obj \<Longrightarrow> operator_call m l args = Inl bad_function_call"
  by (simp add: operator_call_def operator_bool_def access_defs empty_obj_def)

lemma operator_bool_empty:
  "l < length (objs m) \<Longrightarrow> objs m ! l = empty_obj \<Longrightarrow> operator_bool m l = Inr False"
  by (simp add: operator_bool_def access_defs empty_obj_def)

lemma operator_bool_live:
  "adapter m l = Some w \<Longrightarrow> operator_bool m l = Inr True"
  by (auto dest!: adapter_cases simp: operator_bool_def access_defs)

lemma operator_call_live:
  assumes "adapter m l = Some w"
  shows "\<exists>m'. operator_call m l args = Inr (fst (call w args), m') \<and>
              adapter m' l = Some (snd (call w args)) \<and>
              small_object (objs m' ! l) = small_object (objs m ! l)"
  using adapter_cases [OF assms]
  by (auto simp: operator_call_inline operator_call_heap adapter_def)

lemma call_result_live:
  "adapter m l = Some w \<Longrightarrow> call_result m l args = Inr (fst (call w args))"
  using operator_call_live [of m l w args] by (auto simp: call_result_def)

lemma function_copy_inline:
  "t < length (objs m) \<Longrightarrow> c < length (objs m) \<Longrightarrow> t \<noteq> c \<Longrightarrow>
   objs m ! c = \<lparr>small_object = True, storage = Buffer w\<rparr> \<Longrightarrow>
   function_copy m t c =
     Inr (m\<lparr>objs := (objs m)[t := \<lparr>small_object = True, storage = Buffer w\<rparr>]\<rparr>)"
  by (simp add: function_copy_def access_defs)

lemma function_copy_heap:
  "t < length (objs m) \<Longrightarrow> c < length (objs m) \<Longrightarrow> t \<noteq> c \<Longrightarrow>
   objs m ! c = \<lparr>small_object = False, storage = BigPointer (Some a)\<rparr> \<Longrightarrow>
   a < length (heap m) \<Longrightarrow> heap m ! a = Some w \<Longrightarrow>
   function_copy m t c =
     Inr (m\<lparr>objs := (objs m)[t := \<lparr>small_object = False, storage = BigPointer (Some (length (heap m)))\<rparr>],
            heap := heap m @ [Some w]\<rparr>)"
  by (simp add: function_copy_def access_defs deref_def make_unique_def)

lemma assign_move_into_empty:
  assumes "d < length (objs m)" "c < length (objs m)" "objs m ! d = empty_obj"
    "consistent (objs m ! c)"
  shows "operator_assign_move m d c = Inr (m\<lparr>objs := (objs m)[d := objs m ! c, c := empty_obj]\<rparr>)"
proof (cases "d = c")
  case True
  with assms have "(objs m)[c := empty_obj] = objs m"
    by (metis list_update_id)
  with True assms show ?thesis
    by (simp add: assign_move_unfold destruction_empty function_move_self_empty)
next
  case False
  with assms show ?thesis
    by (simp add: assign_move_unfold destruction_empty function_move_result)
qed

lemma consistent_empty [simp]: "consistent empty_obj"
  by (simp add: consistent_def empty_obj_def)

lemma swap_result:
  assumes a: "a < length (objs m)" and b: "b < length (objs m)"
    and ca: "consistent (objs m ! a)" and cb: "consistent (objs m ! b)"
  shows "swap m a b = Inr (m\<lparr>objs := (objs m)[a := objs m ! b, b := objs m ! a]\<rparr>)"
proof -
  let ?t = "length (objs m)"
  let ?raw = "\<lparr>small_object = False, storage = Dead\<rparr> :: ('a, 'b, 'c) function_obj"
  let ?m1 = "m\<lparr>objs := objs m @ [?raw]\<rparr>"
  let ?m2 = "m\<lparr>objs := (objs m)[b := empty_obj] @ [objs m ! b]\<rparr>"
  let ?m3 = "m\<lparr>objs := (objs m)[b := objs m ! a, a := empty_obj] @ [objs m ! b]\<rparr>"
  let ?m4 = "m\<lparr>objs := (objs m)[b := objs m ! a, a := objs m ! b] @ [empty_obj]\<rparr>"
  have e: "enter m = (?t, ?m1)" by (simp add: enter_def)
  have s1: "function_move ?m1 ?t b = Inr ?m2"
    using b cb by (simp add: function_move_result nth_append list_update_append)
  have s2: "operator_assign_move ?m2 b a = Inr ?m3"
  proof (cases "a = b")
    case True
    with a b show ?thesis
      by (simp add: assign_move_into_empty nth_append list_update_append)
  next
    case False
    with a b ca show ?thesis
      by (simp add: assign_move_into_empty nth_append list_update_append)
  qed
  have s3: "operator_assign_move ?m3 a ?t = Inr ?m4"
    using a b cb by (simp add: assign_move_into_empty nth_append list_update_append)
  have s4: "function_dtor ?m4 ?t = Inr ?m4"
    by (simp add: function_dtor_def destruction_empty nth_append)
  have s5: "leave ?m4 = m\<lparr>objs := (objs m)[b := objs m ! a, a := objs m ! b]\<rparr>"
    by (simp add: leave_def)
  have "swap m a b = Inr (m\<lparr>objs := (objs m)[b := objs m ! a, a := objs m ! b]\<rparr>)"
    by (simp add: swap_def e s1 s2 s3 s4 s5 del: One_nat_def)
  moreover have "(objs m)[b := objs m ! a, a := objs m ! b] = (objs m)[a := objs m ! b, b := objs m ! a]"
    by (cases "a = b") (simp_all add: list_update_swap)
  ultimately show ?thesis by simp
qed


lemma function_F_heap:
  "this < length (objs m) \<Longrightarrow> nothrow_move_constructible f \<Longrightarrow> MAX_SIZE < size_of f \<Longrightarrow>
   function_F m this f =
     Inr (m\<lparr>objs := (objs m)[this := \<lparr>small_object = False,
                                         storage = BigPointer (Some (length (heap m)))\<rparr>],
            heap := heap m @ [Some (wrapper_function f)]\<rparr>)"
  by (simp add: function_F_def access_defs make_unique_def)

lemma function_F_overflow:
  "this < length (objs m) \<Longrightarrow> \<not> (nothrow_move_constructible f \<and> MAX_SIZE < size_of f) \<Longrightarrow>
   MAX_SIZE < sizeof_wrapper_function f \<Longrightarrow> function_F m this f = Inl buffer_overflow"
  by (auto simp: function_F_def access_defs)

lemma function_F_inline:
  "this < length (objs m) \<Longrightarrow> \<not> (nothrow_move_constructible f \<and> MAX_SIZE < size_of f) \<Longrightarrow>
   sizeof_wrapper_function f \<le> MAX_SIZE \<Longrightarrow>
   function_F m this f =
     Inr (m\<lparr>objs := (objs m)[this := \<lparr>small_object = True,
                                         storage = Buffer (wrapper_function f)\<rparr>]\<rparr>)"
  by (auto simp: function_F_def access_defs)

lemma function_member_result:
  "this < length (objs m) \<Longrightarrow>
   function_member m this member =
     Inr (m\<lparr>objs := (objs m)[this := \<lparr>small_object = True,
                                         storage = Buffer (wrapper_member member)\<rparr>]\<rparr>)"
  by (simp add: function_member_def access_defs sizeof_wrapper_member_def sizeof_vptr_def
        MAX_SIZE_def)

lemma function_default_result:
  "this < length (objs m) \<Longrightarrow>
   function_default m this = Inr (m\<lparr>objs := (objs m)[this := empty_obj]\<rparr>)"
  by (simp add: function_default_def function_nullptr_def access_defs empty_obj_def)

subsection \<open>Storage mode at construction\<close>

lemma function_F_cases:
  assumes "this < length (objs m)"
  shows "(nothrow_move_constructible f \<and> MAX_SIZE < size_of f \<and>
          function_F m this f =
            Inr (m\<lparr>objs := (objs m)[this := \<lparr>small_object = False,
                                                storage = BigPointer (Some (length (heap m)))\<rparr>],
                   heap := heap m @ [Some (wrapper_function f)]\<rparr>)) \<or>
         (\<not> (nothrow_move_constructible f \<and> MAX_SIZE < size_of f) \<and>
          sizeof_wrapper_function f \<le> MAX_SIZE \<and>
          function_F m this f =
            Inr (m\<lparr>objs := (objs m)[this := \<lparr>small_object = True,
                                                storage = Buffer (wrapper_function f)\<rparr>]\<rparr>)) \<or>
         (\<not> (nothrow_move_constructible f \<and> MAX_SIZE < size_of f) \<and>
          MAX_SIZE < sizeof_wrapper_function f \<and>
          function_F m this f = Inl buffer_overflow)"
proof (cases "nothrow_move_constructible f \<and> MAX_SIZE < size_of f")
  case True
  with assms show ?thesis by (simp add: function_F_heap)
next
  case False
  show ?thesis
  proof (cases "sizeof_wrapper_function f \<le> MAX_SIZE")
    case True
    with False assms function_F_inline [of this m f] show ?thesis by simp
  next
    case False
    then have "MAX_SIZE < sizeof_wrapper_function f" by simp
    with \<open>\<not> (nothrow_move_constructible f \<and> MAX_SIZE < size_of f)\<close> assms
      function_F_overflow [of this m f]
    show ?thesis by simp
  qed
qed




text \<open>
  The comparison is strict: heap mode is chosen only for a callable strictly larger than 128
  bytes, and a callable of up to 120 bytes is stored inline.
\<close>

lemma heap_mode_above_max_size:
  assumes "this < length (objs m)" "function_F m this f = Inr m'"
    "\<not> small_object (objs m' ! this)"
  shows "128 < size_of f"
  using function_F_cases [OF assms(1), of f] assms
  by (auto simp: MAX_SIZE_def)

lemma inline_up_to_capacity:
  assumes "this < length (objs m)" "size_of f \<le> 120"
  shows "function_F m this f =
           Inr (m\<lparr>objs := (objs m)[this := \<lparr>small_object = True,
                                               storage = Buffer (wrapper_function f)\<rparr>]\<rparr>)"
  using assms
  by (intro function_F_inline)
     (simp_all add: MAX_SIZE_def sizeof_wrapper_function_def sizeof_vptr_def)

text \<open>
  C9, at a nothrow move constructible callable of exactly 128 bytes: the test
  \<open>sizeof(f) > MAX_SIZE\<close> is false, so the constructor takes the inline branch and constructs
  the adapter, of 136 bytes with its vtable pointer, in the buffer of 128 bytes. The callable
  is not stored inline; the constructor writes past the buffer.
\<close>

theorem max_size_callable_overflows:
  "size_of (counter 128) = 128 \<and> nothrow_move_constructible (counter 128) \<and>
   sizeof_wrapper_function (counter 128) = 136 \<and>
   function_F raw2 0 (counter 128) = Inl buffer_overflow"
  by (simp add: function_F_def access_defs sizeof_wrapper_function_def sizeof_vptr_def
        MAX_SIZE_def raw2_def counter_def)

subsection \<open>Invocation\<close>

lemma operator_bool_no_throw: "operator_bool m c \<noteq> Inl bad_function_call"
  by (simp add: operator_bool_def access_defs split: storage.splits)

lemma dispatch_no_throw:
  "operator_bool m c = Inr True \<Longrightarrow> operator_call m c args \<noteq> Inl bad_function_call"
  by (simp add: operator_call_def access_defs deref_def
           split: storage.splits option.splits prod.splits)

text \<open>
  C5: \<open>operator()\<close> raises \<open>bad_function_call\<close> if and only if the boolean test of the
  container is false. On a live container the test is true and the call is dispatched to
  the stored adapter: it returns the adapter's result and leaves the adapter as its \<open>call\<close>
  left it. A default-constructed container tests false and raises the error when called.
\<close>

theorem empty_call_raises:
  "(operator_call m c args = Inl bad_function_call \<longleftrightarrow> operator_bool m c = Inr False) \<and>
   (\<forall>w. adapter m c = Some w \<longrightarrow>
      operator_bool m c = Inr True \<and>
      (\<exists>m'. operator_call m c args = Inr (fst (call w args), m') \<and>
            adapter m' c = Some (snd (call w args)))) \<and>
   (c < length (objs m) \<longrightarrow>
      (\<exists>m1. function_default m c = Inr m1 \<and> operator_bool m1 c = Inr False \<and>
            operator_call m1 c args = Inl bad_function_call))"
proof (intro conjI allI impI)
  show "operator_call m c args = Inl bad_function_call \<longleftrightarrow> operator_bool m c = Inr False"
  proof (cases "operator_bool m c")
    case (Inl e)
    with operator_bool_no_throw [of m c] show ?thesis
      by (auto simp: operator_call_def)
  next
    case (Inr b)
    with dispatch_no_throw [of m c args] show ?thesis
      by (cases b) (auto simp: operator_call_def)
  qed
next
  fix w assume "adapter m c = Some w"
  then show "operator_bool m c = Inr True"
    by (rule operator_bool_live)
next
  fix w assume "adapter m c = Some w"
  from operator_call_live [OF this, of args]
  show "\<exists>m'. operator_call m c args = Inr (fst (call w args), m') \<and>
            adapter m' c = Some (snd (call w args))"
    by blast
next
  assume "c < length (objs m)"
  then show "\<exists>m1. function_default m c = Inr m1 \<and> operator_bool m1 c = Inr False \<and>
            operator_call m1 c args = Inl bad_function_call"
    by (simp add: function_default_result operator_bool_empty operator_call_empty)
qed

theorem empty_call_raises_witness:
  "adapter inline_and_empty 0 = Some (wrapper_function (counter 4)) \<and>
   operator_bool inline_and_empty 0 = Inr True \<and>
   call_result inline_and_empty 0 3 = Inr 8 \<and>
   operator_bool inline_and_empty 1 = Inr False \<and>
   operator_call inline_and_empty 1 3 = Inl bad_function_call \<and>
   (1::nat) < length (objs raw2) \<and>
   (\<exists>m1. function_default raw2 1 = Inr m1 \<and> operator_call m1 1 3 = Inl bad_function_call)"
proof -
  have a: "adapter inline_and_empty 0 = Some (wrapper_function (counter 4))"
    by (simp add: adapter_def inline_and_empty_def)
  have b: "operator_bool inline_and_empty 1 = Inr False"
    by (simp add: operator_bool_def access_defs inline_and_empty_def)
  have l: "(1::nat) < length (objs raw2)"
    by (simp add: raw2_def)
  from empty_call_raises [of inline_and_empty 0 3] a
  have "operator_bool inline_and_empty 0 = Inr True"
    and "\<exists>m'. operator_call inline_and_empty 0 3 =
            Inr (fst (call (wrapper_function (counter 4)) 3), m')"
    by auto
  moreover have "fst (call (wrapper_function (counter 4)) 3) = 8"
    by (simp add: counter_def)
  moreover from empty_call_raises [of inline_and_empty 1 3] b
  have "operator_call inline_and_empty 1 3 = Inl bad_function_call" by simp
  moreover from empty_call_raises [of raw2 1 3] l
  have "\<exists>m1. function_default raw2 1 = Inr m1 \<and> operator_call m1 1 3 = Inl bad_function_call"
    by blast
  ultimately show ?thesis using a b l
    by (auto simp: call_result_def)
qed

text \<open>
  Pointers to member functions. The constructor instantiates \<open>wrapper_member<F, Class>\<close>
  and leaves \<open>FunArgs\<close> empty, so the adapter's \<open>call\<close> takes the receiver alone and invokes
  the member function without arguments. It overrides \<open>wrapper::call\<close> only when \<open>Args...\<close>
  is the receiver class, by value; for a member function with parameters of its own (the
  case C7 is about) the adapter is an abstract class and the constructor does not compile,
  and the embedding has no term for such a container. In the one case that compiles, the
  container invoked with a receiver returns what the member function returns on it.
\<close>

theorem member_pointer_call:
  assumes "this < length (objs m)"
  shows "\<exists>m1. function_member m this member = Inr m1 \<and>
           (\<forall>receiver. \<exists>m2. operator_call m1 this receiver = Inr (fst (member receiver), m2)) \<and>
           (\<forall>receiver. call_result m1 this receiver = Inr (fst (member receiver)))"
proof -
  let ?m1 = "m\<lparr>objs := (objs m)[this := \<lparr>small_object = True,
                                            storage = Buffer (wrapper_member member)\<rparr>]\<rparr>"
  have c: "function_member m this member = Inr ?m1"
    using assms by (rule function_member_result)
  have a: "adapter ?m1 this = Some (wrapper_member member)"
    using assms by (simp add: adapter_def)
  have "\<exists>m2. operator_call ?m1 this receiver = Inr (fst (member receiver), m2)" for receiver
    using operator_call_live [OF a, of receiver] by auto
  moreover have "call_result ?m1 this receiver = Inr (fst (member receiver))" for receiver
    using call_result_live [OF a, of receiver] by simp
  ultimately show ?thesis using c by blast
qed

theorem member_pointer_call_witness:
  "(0::nat) < length (objs raw2) \<and>
   (\<exists>m1. function_member raw2 0 bar = Inr m1 \<and> call_result m1 0 21 = Inr 42)"
proof -
  have h: "(0::nat) < length (objs raw2)" by (simp add: raw2_def)
  from member_pointer_call [OF h, of bar]
  obtain m1 where "function_member raw2 0 bar = Inr m1"
    and "call_result m1 0 21 = Inr (fst (bar 21))" by blast
  then show ?thesis using h by (auto simp: bar_def)
qed

subsection \<open>Copying\<close>

text \<open>
  C3, at an empty source: the copy constructor finds the flag clear and evaluates
  \<open>other.big_pointer->clone()\<close> on the null pointer. It does not produce an empty copy.
\<close>

theorem copy_of_empty_fails:
  "function_copy inline_and_empty 0 1 = Inl null_dereference \<and>
   function_copy heap_and_empty 0 1 = Inl null_dereference \<and>
   (\<exists>m1. function_default raw2 0 = Inr m1 \<and> function_copy m1 1 0 = Inl null_dereference)"
  by (simp add: function_copy_def function_default_def function_nullptr_def access_defs
        deref_def inline_and_empty_def heap_and_empty_def raw2_def)

text \<open>
  C2, self-assignment \<open>c = c\<close>: \<open>operator=\<close> runs \<open>destruction()\<close> on \<open>*this\<close> before it
  copies \<open>other\<close>, which is the same object. An inline container clones the adapter that was
  just destroyed, a heap container clones through the pointer that was just released, an
  empty container clones through the null pointer.
\<close>

theorem self_assignment_fails:
  "operator_assign_copy inline_and_empty 0 0 = Inl dead_object \<and>
   operator_assign_copy heap_and_empty 0 0 = Inl use_after_free \<and>
   operator_assign_copy inline_and_empty 1 1 = Inl null_dereference"
  by (simp add: operator_assign_copy_def destruction_def enter_def function_copy_def
        access_defs deref_def delete_def inline_and_empty_def heap_and_empty_def)

text \<open>
  The same order of statements breaks copy assignment onto a live inline container from
  another container: \<open>swap\<close> moves the adapter of \<open>*this\<close> into the temporary after
  \<open>destruction()\<close> has destroyed it.
\<close>

lemma copy_assignment_onto_inline:
  "operator_assign_copy inline_and_heap 0 1 = Inl dead_object"
  by (simp add: operator_assign_copy_def destruction_def enter_def function_copy_def
        swap_def function_move_def operator_assign_move_def
        access_defs deref_def delete_def make_unique_def inline_and_heap_def)

subsection \<open>Moving\<close>

lemma adapter_cong:
  "l < length (objs m) \<Longrightarrow> l' < length (objs m') \<Longrightarrow> objs m' ! l' = objs m ! l \<Longrightarrow>
   heap m' = heap m \<Longrightarrow> adapter m' l' = adapter m l"
  by (simp add: adapter_def split: storage.splits option.splits)

lemma adapter_consistent: "adapter m l = Some w \<Longrightarrow> consistent (objs m ! l)"
  by (auto dest!: adapter_cases simp: consistent_def)

lemma adapter_empty: "objs m ! l = empty_obj \<Longrightarrow> adapter m l = None"
  by (simp add: adapter_def empty_obj_def)

lemma call_result_empty:
  "l < length (objs m) \<Longrightarrow> objs m ! l = empty_obj \<Longrightarrow> call_result m l args = Inl bad_function_call"
  by (simp add: call_result_def operator_call_empty)

text \<open>Destroying a valid container changes no other object, and no heap cell but the one it owns.\<close>

lemma destruction_valid:
  assumes "valid m d"
  shows "\<exists>m1. destruction m d = Inr m1 \<and> length (objs m1) = length (objs m) \<and>
              (\<forall>l. l \<noteq> d \<longrightarrow> objs m1 ! l = objs m ! l) \<and>
              length (heap m1) = length (heap m) \<and>
              (\<forall>a. owned m d \<noteq> Some a \<longrightarrow> heap m1 ! a = heap m ! a)"
proof (cases "adapter m d")
  case None
  with assms have "d < length (objs m)" "objs m ! d = empty_obj"
    by (simp_all add: valid_def)
  then show ?thesis by (simp add: destruction_empty)
next
  case (Some w)
  from adapter_cases [OF Some] show ?thesis
    by (auto simp: destruction_inline destruction_heap owned_def)
qed

lemma destruction_keeps_adapter:
  assumes "valid m d" "destruction m d = Inr m1" "adapter m c = Some w" "d \<noteq> c"
    "owned m c = None \<or> owned m d \<noteq> owned m c"
  shows "adapter m1 c = Some w \<and> objs m1 ! c = objs m ! c \<and> length (objs m1) = length (objs m)"
proof -
  from destruction_valid [OF assms(1)] assms(2)
  have l: "length (objs m1) = length (objs m)"
    and o: "\<forall>l. l \<noteq> d \<longrightarrow> objs m1 ! l = objs m ! l"
    and hl: "length (heap m1) = length (heap m)"
    and h: "\<forall>a. owned m d \<noteq> Some a \<longrightarrow> heap m1 ! a = heap m ! a"
    by auto
  from o assms(4) have oc: "objs m1 ! c = objs m ! c" by simp
  from adapter_cases [OF assms(3)] have "adapter m1 c = Some w"
  proof (elim conjE disjE exE)
    assume "c < length (objs m)" "objs m ! c = \<lparr>small_object = True, storage = Buffer w\<rparr>"
    with oc l show ?thesis by (simp add: adapter_def)
  next
    fix a
    assume c: "c < length (objs m)"
      and r: "objs m ! c = \<lparr>small_object = False, storage = BigPointer (Some a)\<rparr>"
      and a: "a < length (heap m)" "heap m ! a = Some w"
    from c r have "owned m c = Some a" by (simp add: owned_def)
    with assms(5) have "owned m d \<noteq> Some a" by auto
    with h a have "heap m1 ! a = Some w" by simp
    with c r a oc l hl show ?thesis by (simp add: adapter_def)
  qed
  with oc l show ?thesis by simp
qed

text \<open>
  C4: for a live container \<open>c\<close>, after move construction of a new container from \<open>c\<close> the
  boolean test of \<open>c\<close> is false, the new container has the mode flag \<open>c\<close> had and holds the
  adapter \<open>c\<close> held, so that invoking it yields what invoking \<open>c\<close> would have yielded. The
  same holds for move assignment to another container \<open>d\<close> in any of its three states (which
  does not own the adapter of \<open>c\<close>: ownership is exclusive).
\<close>

theorem move_transfers:
  assumes "adapter m c = Some w"
  shows "(t < length (objs m) \<and> t \<noteq> c \<longrightarrow>
           (\<exists>m'. function_move m t c = Inr m' \<and>
              operator_bool m' c = Inr False \<and>
              small_object (objs m' ! t) = small_object (objs m ! c) \<and>
              adapter m' t = Some w \<and>
              (\<forall>args. call_result m' t args = call_result m c args \<and>
                      call_result m' t args = Inr (fst (call w args))))) \<and>
         (valid m d \<and> d \<noteq> c \<and> (owned m c = None \<or> owned m d \<noteq> owned m c) \<longrightarrow>
           (\<exists>m'. operator_assign_move m d c = Inr m' \<and>
              operator_bool m' c = Inr False \<and>
              small_object (objs m' ! d) = small_object (objs m ! c) \<and>
              adapter m' d = Some w \<and>
              (\<forall>args. call_result m' d args = call_result m c args \<and>
                      call_result m' d args = Inr (fst (call w args)))))"
proof (intro conjI impI)
  from adapter_cases [OF assms] have c: "c < length (objs m)" by simp
  assume "t < length (objs m) \<and> t \<noteq> c"
  then have t: "t < length (objs m)" "t \<noteq> c" by simp_all
  let ?m' = "m\<lparr>objs := (objs m)[t := objs m ! c, c := empty_obj]\<rparr>"
  have mv: "function_move m t c = Inr ?m'"
    using t c adapter_consistent [OF assms] by (simp add: function_move_result)
  have b: "operator_bool ?m' c = Inr False"
    using c by (simp add: operator_bool_empty)
  have f: "small_object (objs ?m' ! t) = small_object (objs m ! c)"
    using t c by simp
  have "adapter ?m' t = adapter m c"
    using t c by (intro adapter_cong) simp_all
  with assms have a: "adapter ?m' t = Some w" by simp
  have "call_result ?m' t args = call_result m c args \<and>
        call_result ?m' t args = Inr (fst (call w args))" for args
    using call_result_live [OF a] call_result_live [OF assms] by simp
  with mv b f a
  show "\<exists>m'. function_move m t c = Inr m' \<and>
              operator_bool m' c = Inr False \<and>
              small_object (objs m' ! t) = small_object (objs m ! c) \<and>
              adapter m' t = Some w \<and>
              (\<forall>args. call_result m' t args = call_result m c args \<and>
                      call_result m' t args = Inr (fst (call w args)))"
    by blast
next
  from adapter_cases [OF assms] have c: "c < length (objs m)" by simp
  assume "valid m d \<and> d \<noteq> c \<and> (owned m c = None \<or> owned m d \<noteq> owned m c)"
  then have v: "valid m d" and dc: "d \<noteq> c"
    and ex: "owned m c = None \<or> owned m d \<noteq> owned m c" by simp_all
  from v have d: "d < length (objs m)" by (simp add: valid_def)
  from destruction_valid [OF v] obtain m1 where ds: "destruction m d = Inr m1" by blast
  from destruction_keeps_adapter [OF v ds assms dc ex]
  have a1: "adapter m1 c = Some w" and o1: "objs m1 ! c = objs m ! c"
    and l1: "length (objs m1) = length (objs m)" by simp_all
  let ?m' = "m1\<lparr>objs := (objs m1)[d := objs m1 ! c, c := empty_obj]\<rparr>"
  have mv: "operator_assign_move m d c = Inr ?m'"
    using d c dc l1 adapter_consistent [OF a1]
    by (simp add: assign_move_unfold ds function_move_result)
  have b: "operator_bool ?m' c = Inr False"
    using c l1 by (simp add: operator_bool_empty)
  have f: "small_object (objs ?m' ! d) = small_object (objs m ! c)"
    using d c dc l1 o1 by simp
  have "adapter ?m' d = adapter m1 c"
    using d c dc l1 by (intro adapter_cong) simp_all
  with a1 have a: "adapter ?m' d = Some w" by simp
  have "call_result ?m' d args = call_result m c args \<and>
        call_result ?m' d args = Inr (fst (call w args))" for args
    using call_result_live [OF a] call_result_live [OF assms] by simp
  with mv b f a
  show "\<exists>m'. operator_assign_move m d c = Inr m' \<and>
              operator_bool m' c = Inr False \<and>
              small_object (objs m' ! d) = small_object (objs m ! c) \<and>
              adapter m' d = Some w \<and>
              (\<forall>args. call_result m' d args = call_result m c args \<and>
                      call_result m' d args = Inr (fst (call w args)))"
    by blast
qed


theorem move_transfers_witness:
  "adapter inline_and_heap 0 = Some (wrapper_function (counter 4)) \<and>
   (1::nat) < length (objs inline_and_heap) \<and> (1::nat) \<noteq> 0 \<and>
   valid inline_and_heap 1 \<and> owned inline_and_heap 0 = None \<and>
   (\<exists>m'. function_move inline_and_heap 1 0 = Inr m' \<and> operator_bool m' 0 = Inr False \<and>
      small_object (objs m' ! 1) \<and> call_result m' 1 3 = Inr 8) \<and>
   (\<exists>m'. operator_assign_move inline_and_heap 1 0 = Inr m' \<and> operator_bool m' 0 = Inr False \<and>
      small_object (objs m' ! 1) \<and> call_result m' 1 3 = Inr 8)"
proof -
  have a: "adapter inline_and_heap 0 = Some (wrapper_function (counter 4))"
    by (simp add: adapter_def inline_and_heap_def)
  have l: "(1::nat) < length (objs inline_and_heap)"
    by (simp add: inline_and_heap_def)
  have v: "valid inline_and_heap 1"
    by (simp add: valid_def adapter_def inline_and_heap_def)
  have ow: "owned inline_and_heap 0 = None"
    by (simp add: owned_def inline_and_heap_def)
  have s: "small_object (objs inline_and_heap ! 0)"
    by (simp add: inline_and_heap_def)
  have r: "fst (call (wrapper_function (counter 4)) 3) = 8"
    by (simp add: counter_def)
  from move_transfers [OF a, of 1 1] l v ow
  obtain m1 m2 where
    "function_move inline_and_heap 1 0 = Inr m1" "operator_bool m1 0 = Inr False"
    "small_object (objs m1 ! 1) = small_object (objs inline_and_heap ! 0)"
    "call_result m1 1 3 = Inr (fst (call (wrapper_function (counter 4)) 3))"
    "operator_assign_move inline_and_heap 1 0 = Inr m2" "operator_bool m2 0 = Inr False"
    "small_object (objs m2 ! 1) = small_object (objs inline_and_heap ! 0)"
    "call_result m2 1 3 = Inr (fst (call (wrapper_function (counter 4)) 3))"
    by auto
  with a l v ow s r show ?thesis by simp
qed

subsection \<open>Swap\<close>

lemma swap_back:
  assumes "a < length xs" "b < length xs"
  shows "(xs[a := xs ! b, b := xs ! a])
           [a := xs[a := xs ! b, b := xs ! a] ! b, b := xs[a := xs ! b, b := xs ! a] ! a] = xs"
  using assms by (intro nth_equalityI) (auto simp: nth_list_update)

lemma valid_cong:
  "l < length (objs m) \<Longrightarrow> l' < length (objs m') \<Longrightarrow> objs m' ! l' = objs m ! l \<Longrightarrow>
   heap m' = heap m \<Longrightarrow> valid m' l' = valid m l"
  using adapter_cong [of l m l' m'] by (simp add: valid_def)

lemma operator_bool_cong:
  "l < length (objs m) \<Longrightarrow> l' < length (objs m') \<Longrightarrow> objs m' ! l' = objs m ! l \<Longrightarrow>
   operator_bool m' l' = operator_bool m l"
  by (simp add: operator_bool_def access_defs)

lemma call_result_cong:
  assumes "valid m l" "l' < length (objs m')" "objs m' ! l' = objs m ! l" "heap m' = heap m"
  shows "call_result m' l' args = call_result m l args"
proof (cases "adapter m l")
  case None
  with assms show ?thesis by (simp add: valid_def call_result_empty)
next
  case (Some w)
  from assms have "l < length (objs m)" by (simp add: valid_def)
  with assms Some adapter_cong [of l m l' m'] have "adapter m' l' = Some w" by simp
  with Some show ?thesis by (simp add: call_result_live)
qed

text \<open>
  C8: for containers \<open>a\<close> and \<open>b\<close>, each live inline, live heap or empty, \<open>a.swap(b)\<close> gives
  each side the other's prior state (flag and storage, hence boolean test and call
  results) and changes nothing else; a second \<open>a.swap(b)\<close> restores the memory.
\<close>

theorem swap_exchanges:
  assumes "valid m a" "valid m b"
  shows "\<exists>m1. swap m a b = Inr m1 \<and>
           m1 = m\<lparr>objs := (objs m)[a := objs m ! b, b := objs m ! a]\<rparr> \<and>
           objs m1 ! a = objs m ! b \<and> objs m1 ! b = objs m ! a \<and>
           operator_bool m1 a = operator_bool m b \<and>
           operator_bool m1 b = operator_bool m a \<and>
           (\<forall>args. call_result m1 a args = call_result m b args \<and>
                   call_result m1 b args = call_result m a args) \<and>
           swap m1 a b = Inr m"
proof -
  from assms have a: "a < length (objs m)" and b: "b < length (objs m)"
    by (simp_all add: valid_def)
  let ?m1 = "m\<lparr>objs := (objs m)[a := objs m ! b, b := objs m ! a]\<rparr>"
  have s: "swap m a b = Inr ?m1"
    using a b assms by (simp add: swap_result valid_consistent)
  have oa: "objs ?m1 ! a = objs m ! b" and ob: "objs ?m1 ! b = objs m ! a"
    using a b by (simp_all add: nth_list_update)
  have la: "a < length (objs ?m1)" and lb: "b < length (objs ?m1)"
    using a b by simp_all
  have h: "heap ?m1 = heap m" by simp
  have ba: "operator_bool ?m1 a = operator_bool m b"
    using b la oa by (rule operator_bool_cong)
  have bb: "operator_bool ?m1 b = operator_bool m a"
    using a lb ob by (rule operator_bool_cong)
  have ca: "call_result ?m1 a args = call_result m b args" for args
    using assms(2) la oa h by (rule call_result_cong)
  have cb: "call_result ?m1 b args = call_result m a args" for args
    using assms(1) lb ob h by (rule call_result_cong)
  have "consistent (objs ?m1 ! a)" "consistent (objs ?m1 ! b)"
    using assms oa ob by (simp_all add: valid_consistent del: memory.simps)
  with la lb
  have "swap ?m1 a b = Inr (?m1\<lparr>objs := (objs ?m1)[a := objs ?m1 ! b, b := objs ?m1 ! a]\<rparr>)"
    by (rule swap_result)
  also have "?m1\<lparr>objs := (objs ?m1)[a := objs ?m1 ! b, b := objs ?m1 ! a]\<rparr> = m"
    using swap_back [OF a b] by simp
  finally have again: "swap ?m1 a b = Inr m" .
  from s oa ob ba bb ca cb again show ?thesis by blast
qed

theorem swap_exchanges_witness:
  "valid inline_and_heap 0 \<and> valid inline_and_heap 1 \<and> valid inline_and_empty 1 \<and>
   (\<exists>m1. swap inline_and_heap 0 1 = Inr m1 \<and>
      \<not> small_object (objs m1 ! 0) \<and> small_object (objs m1 ! 1) \<and>
      swap m1 0 1 = Inr inline_and_heap) \<and>
   (\<exists>m1. swap inline_and_empty 1 1 = Inr m1 \<and> operator_bool m1 1 = Inr False)"
proof -
  have v0: "valid inline_and_heap 0" and v1: "valid inline_and_heap 1"
    and v2: "valid inline_and_empty 1"
    by (simp_all add: valid_def adapter_def inline_and_heap_def inline_and_empty_def empty_obj_def)
  have f: "small_object (objs inline_and_heap ! 0)" "\<not> small_object (objs inline_and_heap ! 1)"
    by (simp_all add: inline_and_heap_def)
  have e: "operator_bool inline_and_empty 1 = Inr False"
    by (simp add: operator_bool_def access_defs inline_and_empty_def)
  from swap_exchanges [OF v0 v1] obtain m1 where
    "swap inline_and_heap 0 1 = Inr m1" "objs m1 ! 0 = objs inline_and_heap ! 1"
    "objs m1 ! 1 = objs inline_and_heap ! 0" "swap m1 0 1 = Inr inline_and_heap"
    by blast
  moreover from swap_exchanges [OF v2 v2] obtain m2 where
    "swap inline_and_empty 1 1 = Inr m2"
    "operator_bool m2 1 = operator_bool inline_and_empty 1"
    by blast
  ultimately show ?thesis using v0 v1 v2 f e by simp
qed

subsection \<open>Copies of live containers\<close>

lemma function_copy_live:
  assumes "adapter m c = Some w" "t < length (objs m)" "t \<noteq> c"
  shows "(objs m ! c = \<lparr>small_object = True, storage = Buffer w\<rparr> \<and>
          function_copy m t c =
            Inr (m\<lparr>objs := (objs m)[t := \<lparr>small_object = True, storage = Buffer w\<rparr>]\<rparr>)) \<or>
         (\<exists>a. objs m ! c = \<lparr>small_object = False, storage = BigPointer (Some a)\<rparr> \<and>
              a < length (heap m) \<and> heap m ! a = Some w \<and>
              function_copy m t c =
                Inr (m\<lparr>objs := (objs m)[t := \<lparr>small_object = False,
                                                 storage = BigPointer (Some (length (heap m)))\<rparr>],
                       heap := heap m @ [Some w]\<rparr>))"
  using adapter_cases [OF assms(1)] assms(2,3)
  by (auto simp: function_copy_inline function_copy_heap)

text \<open>Invoking one of two containers that own different adapters leaves the other's adapter.\<close>

lemma call_keeps_other_inline:
  assumes "l < length (objs m)" "objs m ! l = \<lparr>small_object = True, storage = Buffer w\<rparr>"
    "l' \<noteq> l"
  shows "\<exists>m'. operator_call m l args = Inr (fst (call w args), m') \<and> adapter m' l' = adapter m l'"
proof -
  let ?m' = "m\<lparr>objs := (objs m)[l := \<lparr>small_object = True,
                                          storage = Buffer (snd (call w args))\<rparr>]\<rparr>"
  have "operator_call m l args = Inr (fst (call w args), ?m')"
    using assms(1,2) by (rule operator_call_inline)
  moreover have "adapter ?m' l' = adapter m l'"
    using assms(1,3) by (auto simp: adapter_def split: storage.splits option.splits)
  ultimately show ?thesis by blast
qed

lemma call_keeps_other_heap:
  assumes "l < length (objs m)"
    "objs m ! l = \<lparr>small_object = False, storage = BigPointer (Some a)\<rparr>"
    "a < length (heap m)" "heap m ! a = Some w" "owned m l' \<noteq> Some a"
  shows "\<exists>m'. operator_call m l args = Inr (fst (call w args), m') \<and> adapter m' l' = adapter m l'"
proof -
  let ?m' = "m\<lparr>heap := (heap m)[a := Some (snd (call w args))]\<rparr>"
  have "operator_call m l args = Inr (fst (call w args), ?m')"
    using assms(1-4) by (rule operator_call_heap)
  moreover have "adapter ?m' l' = adapter m l'"
    using assms(5)
    by (auto simp: adapter_def owned_def nth_list_update split: storage.splits option.splits)
  ultimately show ?thesis by blast
qed

text \<open>
  C6: for a live container \<open>c\<close>, after copy construction of \<open>t\<close> from \<open>c\<close> both hold an adapter
  equal to the one \<open>c\<close> held, and invoking either with the same arguments yields the same
  result. The copies are independent: an invocation of one, which may change the data its
  callable captured, leaves the adapter of the other, and so every result the other will
  yield, as it was.
\<close>

theorem copy_independent:
  assumes "adapter m c = Some w" "t < length (objs m)" "t \<noteq> c"
  shows "\<exists>m1. function_copy m t c = Inr m1 \<and>
           adapter m1 c = Some w \<and> adapter m1 t = Some w \<and>
           (\<forall>args. call_result m1 t args = call_result m1 c args \<and>
                   call_result m1 c args = call_result m c args) \<and>
           (\<forall>args. \<exists>r mc mt.
              operator_call m1 c args = Inr (r, mc) \<and>
              operator_call m1 t args = Inr (r, mt) \<and>
              adapter mc t = adapter m1 t \<and> adapter mt c = adapter m1 c \<and>
              (\<forall>args'. call_result mc t args' = call_result m1 t args') \<and>
              (\<forall>args'. call_result mt c args' = call_result m1 c args'))"
proof -
  from adapter_cases [OF assms(1)] have c: "c < length (objs m)" by simp
  have "\<exists>m1. function_copy m t c = Inr m1 \<and>
           adapter m1 c = Some w \<and> adapter m1 t = Some w \<and>
           (\<forall>args. \<exists>mc mt.
              operator_call m1 c args = Inr (fst (call w args), mc) \<and>
              operator_call m1 t args = Inr (fst (call w args), mt) \<and>
              adapter mc t = adapter m1 t \<and> adapter mt c = adapter m1 c)"
    using function_copy_live [OF assms]
  proof (elim disjE conjE exE)
    let ?X = "\<lparr>small_object = True, storage = Buffer w\<rparr> :: ('a, 'b, 'c) function_obj"
    let ?m1 = "m\<lparr>objs := (objs m)[t := ?X]\<rparr>"
    assume r: "objs m ! c = ?X" and cp: "function_copy m t c = Inr ?m1"
    have lc: "c < length (objs ?m1)" and lt: "t < length (objs ?m1)"
      using c assms(2) by simp_all
    have oc: "objs ?m1 ! c = ?X" and ot: "objs ?m1 ! t = ?X"
      using c assms(2,3) r by simp_all
    have ac: "adapter ?m1 c = Some w" and at: "adapter ?m1 t = Some w"
      using lc lt oc ot by (simp_all add: adapter_def del: memory.simps)
    have "\<exists>mc mt.
              operator_call ?m1 c args = Inr (fst (call w args), mc) \<and>
              operator_call ?m1 t args = Inr (fst (call w args), mt) \<and>
              adapter mc t = adapter ?m1 t \<and> adapter mt c = adapter ?m1 c" for args
      using call_keeps_other_inline [OF lc oc assms(3), of args]
        call_keeps_other_inline [OF lt ot assms(3) [symmetric], of args]
      by blast
    with cp ac at show ?thesis by blast
  next
    fix a
    let ?n = "length (heap m)"
    let ?C = "\<lparr>small_object = False, storage = BigPointer (Some a)\<rparr> :: ('a, 'b, 'c) function_obj"
    let ?T = "\<lparr>small_object = False, storage = BigPointer (Some ?n)\<rparr> :: ('a, 'b, 'c) function_obj"
    let ?m1 = "m\<lparr>objs := (objs m)[t := ?T], heap := heap m @ [Some w]\<rparr>"
    assume r: "objs m ! c = ?C" and a: "a < ?n" "heap m ! a = Some w"
      and cp: "function_copy m t c = Inr ?m1"
    have lc: "c < length (objs ?m1)" and lt: "t < length (objs ?m1)"
      using c assms(2) by simp_all
    have oc: "objs ?m1 ! c = ?C" and ot: "objs ?m1 ! t = ?T"
      using c assms(2,3) r by simp_all
    have ha: "a < length (heap ?m1)" "heap ?m1 ! a = Some w"
      and hn: "?n < length (heap ?m1)" "heap ?m1 ! ?n = Some w"
      using a by (simp_all add: nth_append)
    have ac: "adapter ?m1 c = Some w" and at: "adapter ?m1 t = Some w"
      using lc lt oc ot ha hn by (simp_all add: adapter_def del: memory.simps)
    have wc: "owned ?m1 c \<noteq> Some ?n" and wt: "owned ?m1 t \<noteq> Some a"
      using lc lt oc ot a by (simp_all add: owned_def del: memory.simps)
    have "\<exists>mc mt.
              operator_call ?m1 c args = Inr (fst (call w args), mc) \<and>
              operator_call ?m1 t args = Inr (fst (call w args), mt) \<and>
              adapter mc t = adapter ?m1 t \<and> adapter mt c = adapter ?m1 c" for args
      using call_keeps_other_heap [OF lc oc ha wt, of args]
        call_keeps_other_heap [OF lt ot hn wc, of args]
      by blast
    with cp ac at show ?thesis by blast
  qed
  then obtain m1 where cp: "function_copy m t c = Inr m1"
    and ac: "adapter m1 c = Some w" and at: "adapter m1 t = Some w"
    and calls: "\<forall>args. \<exists>mc mt.
              operator_call m1 c args = Inr (fst (call w args), mc) \<and>
              operator_call m1 t args = Inr (fst (call w args), mt) \<and>
              adapter mc t = adapter m1 t \<and> adapter mt c = adapter m1 c"
    by blast
  have same: "call_result m1 t args = call_result m1 c args \<and>
              call_result m1 c args = call_result m c args" for args
    by (simp add: call_result_live [OF ac] call_result_live [OF at]
          call_result_live [OF assms(1)])
  have indep: "\<exists>r mc mt.
              operator_call m1 c args = Inr (r, mc) \<and>
              operator_call m1 t args = Inr (r, mt) \<and>
              adapter mc t = adapter m1 t \<and> adapter mt c = adapter m1 c \<and>
              (\<forall>args'. call_result mc t args' = call_result m1 t args') \<and>
              (\<forall>args'. call_result mt c args' = call_result m1 c args')" for args
  proof -
    from calls obtain mc mt where
      1: "operator_call m1 c args = Inr (fst (call w args), mc)"
      and 2: "operator_call m1 t args = Inr (fst (call w args), mt)"
      and 3: "adapter mc t = adapter m1 t" and 4: "adapter mt c = adapter m1 c"
      by blast
    from 3 at have 5: "adapter mc t = Some w" by simp
    from 4 ac have 6: "adapter mt c = Some w" by simp
    have "call_result mc t args' = call_result m1 t args'" for args'
      by (simp add: call_result_live [OF 5] call_result_live [OF at])
    moreover have "call_result mt c args' = call_result m1 c args'" for args'
      by (simp add: call_result_live [OF 6] call_result_live [OF ac])
    ultimately show ?thesis using 1 2 3 4 by blast
  qed
  from cp ac at same indep show ?thesis by blast
qed


theorem copy_independent_witness:
  "adapter heap_and_empty 0 = Some (wrapper_function (counter 200)) \<and>
   (1::nat) < length (objs heap_and_empty) \<and> (1::nat) \<noteq> 0 \<and>
   (\<exists>m1. function_copy heap_and_empty 1 0 = Inr m1 \<and>
      call_result m1 0 3 = Inr 8 \<and> call_result m1 1 3 = Inr 8 \<and>
      (\<exists>r mc. operator_call m1 0 3 = Inr (r, mc) \<and> call_result mc 1 3 = Inr 8))"
proof -
  have a: "adapter heap_and_empty 0 = Some (wrapper_function (counter 200))"
    by (simp add: adapter_def heap_and_empty_def)
  have l: "(1::nat) < length (objs heap_and_empty)"
    by (simp add: heap_and_empty_def)
  have n: "(1::nat) \<noteq> 0" by simp
  have r: "call_result heap_and_empty 0 3 = Inr 8"
    by (simp add: call_result_live [OF a] counter_def)
  from copy_independent [OF a l n] obtain m1 where
    cp: "function_copy heap_and_empty 1 0 = Inr m1"
    and same: "\<forall>args. call_result m1 1 args = call_result m1 0 args \<and>
                      call_result m1 0 args = call_result heap_and_empty 0 args"
    and indep: "\<forall>args. \<exists>r mc mt.
              operator_call m1 0 args = Inr (r, mc) \<and>
              operator_call m1 1 args = Inr (r, mt) \<and>
              adapter mc 1 = adapter m1 1 \<and> adapter mt 0 = adapter m1 0 \<and>
              (\<forall>args'. call_result mc 1 args' = call_result m1 1 args') \<and>
              (\<forall>args'. call_result mt 0 args' = call_result m1 0 args')"
    by blast
  from same r have s0: "call_result m1 0 3 = Inr 8" and s1: "call_result m1 1 3 = Inr 8"
    by simp_all
  from indep obtain r mc where "operator_call m1 0 3 = Inr (r, mc)"
    and "\<forall>args'. call_result mc 1 args' = call_result m1 1 args'"
    by blast
  with s1 have "\<exists>r mc. operator_call m1 0 3 = Inr (r, mc) \<and> call_result mc 1 3 = Inr 8"
    by auto
  with a l cp s0 s1 show ?thesis by auto
qed

subsection \<open>The moved-from state\<close>

lemma destruction_frame:
  assumes "destruction m d = Inr m1"
  shows "length (objs m1) = length (objs m) \<and> (\<forall>l. l \<noteq> d \<longrightarrow> objs m1 ! l = objs m ! l)"
  using assms
  by (auto simp: destruction_def access_defs delete_def bind_res_def
           split: if_splits storage.splits option.splits sum.splits)

lemma move_leaves_source_empty:
  assumes "c < length (objs m)" "d < length (objs m)" "d \<noteq> c" "consistent (objs m ! c)"
    "function_move m d c = Inr m' \<or> operator_assign_move m d c = Inr m'"
  shows "c < length (objs m') \<and> objs m' ! c = empty_obj"
  using assms(5)
proof
  assume "function_move m d c = Inr m'"
  with assms(1-4) show ?thesis by (auto simp: function_move_result)
next
  assume am: "operator_assign_move m d c = Inr m'"
  then obtain m1 where ds: "destruction m d = Inr m1" and mv: "function_move m1 d c = Inr m'"
    by (cases "destruction m d") (simp_all add: assign_move_unfold)
  from destruction_frame [OF ds] assms(3)
  have "length (objs m1) = length (objs m)" "objs m1 ! c = objs m ! c" by simp_all
  with assms(1-4) mv show ?thesis by (auto simp: function_move_result)
qed

lemma assign_copy_into_empty:
  assumes c: "c < length (objs m)" and e: "objs m ! c = empty_obj"
    and x: "adapter m x = Some v"
  shows "\<exists>m2. operator_assign_copy m c x = Inr m2 \<and> adapter m2 c = Some v \<and>
              adapter m2 x = Some v \<and>
              small_object (objs m2 ! c) = small_object (objs m ! x)"
proof -
  let ?n = "length (objs m)"
  let ?raw = "\<lparr>small_object = False, storage = Dead\<rparr> :: ('a, 'b, 'c) function_obj"
  let ?m2 = "m\<lparr>objs := objs m @ [?raw]\<rparr>"
  from adapter_cases [OF x] have lx: "x < ?n" by simp
  from e x have xc: "x \<noteq> c" by (auto simp: adapter_empty)
  have d: "destruction m c = Inr m" using c e by (rule destruction_empty)
  have en: "enter m = (?n, ?m2)" by (simp add: enter_def)
  have fin: "operator_assign_copy m c x = Inr (m\<lparr>objs := (objs m)[c := X], heap := H\<rparr>)"
    if cp: "function_copy ?m2 ?n x = Inr (m\<lparr>objs := objs m @ [X], heap := H\<rparr>)"
      and cx: "consistent X" for X H
  proof -
    let ?m3 = "m\<lparr>objs := objs m @ [X], heap := H\<rparr>"
    let ?m4 = "m\<lparr>objs := (objs m)[c := X] @ [empty_obj], heap := H\<rparr>"
    have "swap ?m3 c ?n = Inr (?m3\<lparr>objs := (objs ?m3)[c := objs ?m3 ! ?n, ?n := objs ?m3 ! c]\<rparr>)"
      using c e cx by (intro swap_result) (simp_all add: nth_append)
    also have "?m3\<lparr>objs := (objs ?m3)[c := objs ?m3 ! ?n, ?n := objs ?m3 ! c]\<rparr> = ?m4"
      using c e by (simp add: nth_append list_update_append)
    finally have sw: "swap ?m3 c ?n = Inr ?m4" .
    have dt: "function_dtor ?m4 ?n = Inr ?m4"
      by (simp add: function_dtor_def destruction_empty nth_append)
    have lv: "leave ?m4 = m\<lparr>objs := (objs m)[c := X], heap := H\<rparr>"
      by (simp add: leave_def)
    show ?thesis
      by (simp add: operator_assign_copy_def d en cp sw dt lv del: One_nat_def)
  qed
  have x2: "adapter ?m2 x = Some v"
    using adapter_cong [of x m x ?m2] lx x by (simp add: nth_append)
  have "?n < length (objs ?m2)" "?n \<noteq> x" using lx by simp_all
  from function_copy_live [OF x2 this] show ?thesis
  proof (elim disjE conjE exE)
    let ?X = "\<lparr>small_object = True, storage = Buffer v\<rparr> :: ('a, 'b, 'c) function_obj"
    assume r: "objs ?m2 ! x = ?X"
      and "function_copy ?m2 ?n x = Inr (?m2\<lparr>objs := (objs ?m2)[?n := ?X]\<rparr>)"
    then have "function_copy ?m2 ?n x = Inr (m\<lparr>objs := objs m @ [?X], heap := heap m\<rparr>)"
      by simp
    then have "operator_assign_copy m c x = Inr (m\<lparr>objs := (objs m)[c := ?X], heap := heap m\<rparr>)"
      by (rule fin) (simp add: consistent_def)
    moreover from r lx have "objs m ! x = ?X" by (simp add: nth_append)
    ultimately show ?thesis using c lx xc
      by (simp add: adapter_def)
  next
    fix a
    let ?C = "\<lparr>small_object = False, storage = BigPointer (Some a)\<rparr> :: ('a, 'b, 'c) function_obj"
    let ?X = "\<lparr>small_object = False, storage = BigPointer (Some (length (heap m)))\<rparr>
                :: ('a, 'b, 'c) function_obj"
    assume r: "objs ?m2 ! x = ?C" and a: "a < length (heap ?m2)" "heap ?m2 ! a = Some v"
      and "function_copy ?m2 ?n x =
             Inr (?m2\<lparr>objs := (objs ?m2)[?n := \<lparr>small_object = False,
                      storage = BigPointer (Some (length (heap ?m2)))\<rparr>],
                   heap := heap ?m2 @ [Some v]\<rparr>)"
    then have "function_copy ?m2 ?n x = Inr (m\<lparr>objs := objs m @ [?X], heap := heap m @ [Some v]\<rparr>)"
      by simp
    then have "operator_assign_copy m c x =
                 Inr (m\<lparr>objs := (objs m)[c := ?X], heap := heap m @ [Some v]\<rparr>)"
      by (rule fin) (simp add: consistent_def)
    moreover from r lx have "objs m ! x = ?C" by (simp add: nth_append)
    ultimately show ?thesis using c lx xc a
      by (simp add: adapter_def nth_append)
  qed
qed

text \<open>
  When the destination \<open>d\<close> is another object than the source \<open>c\<close>: move construction and
  move assignment from \<open>c\<close> (in any of its three states) return, and leave \<open>c\<close> with the flag
  false and a null pointer. In that state the boolean test of \<open>c\<close> is false, its destructor
  releases nothing (the memory is unchanged), a call raises \<open>bad_function_call\<close>, and \<open>c\<close> can
  be assigned to again, by move from any other container and by copy from any live one.
\<close>

theorem moved_from_is_empty:
  assumes "valid m c" "d < length (objs m)" "d \<noteq> c"
  shows "(\<exists>m'. function_move m d c = Inr m') \<and>
         (valid m d \<longrightarrow> (\<exists>m'. operator_assign_move m d c = Inr m')) \<and>
         (\<forall>m'. function_move m d c = Inr m' \<or> operator_assign_move m d c = Inr m' \<longrightarrow>
            objs m' ! c = \<lparr>small_object = False, storage = BigPointer None\<rparr> \<and>
            operator_bool m' c = Inr False \<and>
            function_dtor m' c = Inr m' \<and>
            (\<forall>args. operator_call m' c args = Inl bad_function_call) \<and>
            (\<forall>x. valid m' x \<and> x \<noteq> c \<longrightarrow>
               (\<exists>m2. operator_assign_move m' c x = Inr m2 \<and>
                     objs m2 ! c = objs m' ! x \<and> heap m2 = heap m')) \<and>
            (\<forall>x v. adapter m' x = Some v \<longrightarrow>
               (\<exists>m2. operator_assign_copy m' c x = Inr m2 \<and>
                     adapter m2 c = Some v \<and> adapter m2 x = Some v)))"
proof (intro conjI allI impI)
  from assms(1) have c: "c < length (objs m)" and cc: "consistent (objs m ! c)"
    by (simp_all add: valid_def valid_consistent)
  from c assms(2,3) cc show "\<exists>m'. function_move m d c = Inr m'"
    by (simp add: function_move_result)
next
  from assms(1) have c: "c < length (objs m)" and cc: "consistent (objs m ! c)"
    by (simp_all add: valid_def valid_consistent)
  assume "valid m d"
  from destruction_valid [OF this] obtain m1 where ds: "destruction m d = Inr m1"
    and "length (objs m1) = length (objs m)" "objs m1 ! c = objs m ! c"
    using assms(3) by auto
  with c assms(2,3) cc show "\<exists>m'. operator_assign_move m d c = Inr m'"
    by (simp add: assign_move_unfold function_move_result)
next
  fix m'
  assume mv: "function_move m d c = Inr m' \<or> operator_assign_move m d c = Inr m'"
  from assms(1) have c: "c < length (objs m)" and cc: "consistent (objs m ! c)"
    by (simp_all add: valid_def valid_consistent)
  from move_leaves_source_empty [OF c assms(2,3) cc mv]
  have l: "c < length (objs m')" and e: "objs m' ! c = empty_obj" by simp_all
  from e show "objs m' ! c = \<lparr>small_object = False, storage = BigPointer None\<rparr>"
    by (simp add: empty_obj_def)
  from l e show "operator_bool m' c = Inr False"
    by (rule operator_bool_empty)
  from l e show "function_dtor m' c = Inr m'"
    by (simp add: function_dtor_def destruction_empty)
  show "operator_call m' c args = Inl bad_function_call" for args
    using l e by (rule operator_call_empty)
  show "\<exists>m2. operator_assign_move m' c x = Inr m2 \<and>
             objs m2 ! c = objs m' ! x \<and> heap m2 = heap m'"
    if "valid m' x \<and> x \<noteq> c" for x
  proof -
    from that have x: "x < length (objs m')" "consistent (objs m' ! x)" "x \<noteq> c"
      by (simp_all add: valid_def valid_consistent)
    with l e show ?thesis
      by (simp add: assign_move_into_empty)
  qed
  show "\<exists>m2. operator_assign_copy m' c x = Inr m2 \<and>
             adapter m2 c = Some v \<and> adapter m2 x = Some v"
    if "adapter m' x = Some v" for x v
    using assign_copy_into_empty [OF l e that] by blast
qed

theorem moved_from_is_empty_witness:
  "valid inline_and_heap 0 \<and> (1::nat) < length (objs inline_and_heap) \<and> (1::nat) \<noteq> 0 \<and>
   valid inline_and_heap 1 \<and>
   (\<exists>m'. operator_assign_move inline_and_heap 1 0 = Inr m' \<and>
      \<not> small_object (objs m' ! 0) \<and> storage (objs m' ! 0) = BigPointer None \<and>
      operator_bool m' 0 = Inr False \<and> function_dtor m' 0 = Inr m' \<and>
      operator_call m' 0 3 = Inl bad_function_call \<and>
      (\<exists>m2. operator_assign_copy m' 0 1 = Inr m2 \<and>
         adapter m2 0 = Some (wrapper_function (counter 4))))"
proof -
  let ?m' = "\<lparr>objs = [\<lparr>small_object = False, storage = BigPointer None\<rparr>,
                       \<lparr>small_object = True, storage = Buffer (wrapper_function (counter 4))\<rparr>],
               heap = [None]\<rparr> :: (int, int, int) memory"
  have v0: "valid inline_and_heap 0" and v1: "valid inline_and_heap 1"
    by (simp_all add: valid_def adapter_def inline_and_heap_def)
  have l: "(1::nat) < length (objs inline_and_heap)"
    by (simp add: inline_and_heap_def)
  have n: "(1::nat) \<noteq> 0" by simp
  have mv: "operator_assign_move inline_and_heap 1 0 = Inr ?m'"
    by (simp add: operator_assign_move_def destruction_def access_defs delete_def
          inline_and_heap_def)
  have a: "adapter ?m' 1 = Some (wrapper_function (counter 4))"
    by (simp add: adapter_def)
  from moved_from_is_empty [OF v0 l n] mv
  have "operator_bool ?m' 0 = Inr False" "function_dtor ?m' 0 = Inr ?m'"
    "operator_call ?m' 0 3 = Inl bad_function_call"
    "\<forall>x v. adapter ?m' x = Some v \<longrightarrow>
       (\<exists>m2. operator_assign_copy ?m' 0 x = Inr m2 \<and>
             adapter m2 0 = Some v \<and> adapter m2 x = Some v)"
    by blast+
  with a have "operator_bool ?m' 0 = Inr False \<and> function_dtor ?m' 0 = Inr ?m' \<and>
      operator_call ?m' 0 3 = Inl bad_function_call \<and>
      (\<exists>m2. operator_assign_copy ?m' 0 1 = Inr m2 \<and>
         adapter m2 0 = Some (wrapper_function (counter 4)))"
    by blast
  with v0 v1 l mv show ?thesis by simp
qed

text \<open>
  C10, at a move assignment whose source is its destination, \<open>a = std::move(a)\<close> on a live
  inline container: \<open>operator=(function&&)\<close> runs \<open>destruction()\<close> on \<open>*this\<close> and then calls
  \<open>move_by_pointer\<close> on the adapter of \<open>other\<close>, the one it has just destroyed. The source is
  not left as an empty container. Nor can every moved-from container be assigned to again:
  copy assignment to it from an empty container goes through the null pointer, as copy
  construction from an empty container does.
\<close>

theorem self_move_assignment_fails:
  "operator_assign_move inline_and_empty 0 0 = Inl dead_object \<and>
   bind_res (function_move inline_empty_raw 2 0) (\<lambda>m. operator_assign_copy m 0 1) =
     Inl null_dereference"
  by (simp add: operator_assign_move_def function_move_def operator_assign_copy_def
        destruction_def enter_def function_copy_def access_defs deref_def
        inline_and_empty_def inline_empty_raw_def)

end
